theory Spec2Isabelle
  imports Complex_Main "HOL-Library.Multiset" "HOL-Library.AList" "HOL-Library.Log_Nat"
begin

section \<open>The A-Index chart (aindex.py)\<close>

subsection \<open>The colours of the bars\<close>

text \<open>
  The loop at the head of \<open>graph\<close> (aindex.py, lines 86 to 95):
  \<^verbatim>\<open>
  colors = ['lightgreen'] * len(aavg)
  for pos, val in enumerate(aavg):
    if 20 < val < 30:     colors[pos] = 'darkorange'
    elif 30 < val < 50:   colors[pos] = 'red'
    elif 50 < val < 100:  colors[pos] = 'darkred'
    elif val >= 100:      colors[pos] = 'darkmagenta'
  \<close>
  The averages are modelled as reals; the comparisons with 20, 30, 50 and 100 are exact on
  floats, so nothing is lost at the boundaries. \<open>colour_step\<close> is one turn of the loop:
  position \<open>pos\<close> is overwritten when a branch fires and the list is left alone when
  none does. \<open>colour_loop\<close> runs the turns over the enumerated averages.
\<close>

definition colour_step :: "nat \<Rightarrow> real \<Rightarrow> string list \<Rightarrow> string list" where
  "colour_step pos val colors =
     (if 20 < val \<and> val < 30 then colors[pos := ''darkorange'']
      else if 30 < val \<and> val < 50 then colors[pos := ''red'']
      else if 50 < val \<and> val < 100 then colors[pos := ''darkred'']
      else if val \<ge> 100 then colors[pos := ''darkmagenta'']
      else colors)"

primrec colour_loop :: "(nat \<times> real) list \<Rightarrow> string list \<Rightarrow> string list" where
  "colour_loop [] colors = colors"
| "colour_loop (pv # rest) colors = colour_loop rest (colour_step (fst pv) (snd pv) colors)"

definition graph_colors :: "real list \<Rightarrow> string list" where
  "graph_colors aavg =
     colour_loop (enumerate 0 aavg) (replicate (length aavg) ''lightgreen'')"

text \<open>
  The colour one average ends with, read off the branches; \<open>graph_colors_map\<close> below
  shows that the loop computes exactly this for every position.
\<close>

definition colour_of :: "real \<Rightarrow> string" where
  "colour_of val =
     (if 20 < val \<and> val < 30 then ''darkorange''
      else if 30 < val \<and> val < 50 then ''red''
      else if 50 < val \<and> val < 100 then ''darkred''
      else if val \<ge> 100 then ''darkmagenta''
      else ''lightgreen'')"

subsection \<open>The daily rows of the store and get_wwv\<close>

text \<open>
  A row of the table \<open>wwv\<close>: the columns the request reads. \<open>wwv.time\<close> is a unix
  time in seconds (the request passes it to \<open>DATETIME(..., "unixepoch")\<close>), \<open>wwv.A\<close>
  the A index, a number the store holds as a double. NULL values are not modelled.
\<close>

record sample =
  wwv_time :: int
  wwv_A :: real

text \<open>
  A row of the answer: \<open>(MAX(A), AVG(A), MIN(A), dt)\<close>. The date \<open>dt\<close>, the text
  \<open>YYYY-MM-DD\<close> that \<open>get_wwv\<close> parses back with \<open>strptime\<close>, is represented by
  the number of the UTC day since 1970-01-01: both the text and the parsed datetime are in
  one-to-one, order-preserving correspondence with it.
\<close>

type_synonym row = "real \<times> real \<times> real \<times> int"

text \<open>
  \<open>DATE(DATETIME(wwv.time, "unixepoch"))\<close>: the UTC calendar day of a unix time.
\<close>

definition DATE :: "int \<Rightarrow> int" where
  "DATE t = t div 86400"

text \<open>
  The rows of one date among the selected ones, in the order of the table, and the row the
  store makes of them. \<open>MAX\<close> and \<open>MIN\<close> pick values of the group. \<open>AVG\<close> is
  arithmetic of the store, which sums doubles in the order it meets the rows and rounds
  as it goes: what it returns for a group is the parameter \<open>avg\<close>, a function of the
  group's rows in table order, about which nothing is assumed.
\<close>

definition date_group :: "sample list \<Rightarrow> int \<Rightarrow> sample list" where
  "date_group sel dt = filter (\<lambda>s. DATE (wwv_time s) = dt) sel"

definition group_row :: "(sample list \<Rightarrow> real) \<Rightarrow> sample list \<Rightarrow> int \<Rightarrow> row" where
  "group_row avg sel dt =
     (let g = date_group sel dt; vs = map wwv_A g in (Max (set vs), avg g, Min (set vs), dt))"

text \<open>
  The request (aindex.py, lines 30 to 35):
  \<^verbatim>\<open>
  SELECT MAX(wwv.A), AVG(wwv.A), MIN(wwv.A), DATE(DATETIME(wwv.time, "unixepoch")) AS dt
  FROM wwv
  WHERE wwv.time > ?
  GROUP BY dt
  \<close>
  \<open>WWV_REQUEST avg wwv start\<close> lists its rows: the WHERE clause keeps the samples after
  \<open>start\<close>, GROUP BY makes one group per date present, and each group gives one row.
  The list is written in ascending date order to have one representative.
\<close>

definition WWV_REQUEST :: "(sample list \<Rightarrow> real) \<Rightarrow> sample list \<Rightarrow> int \<Rightarrow> row list" where
  "WWV_REQUEST avg wwv start =
     (let sel = filter (\<lambda>s. wwv_time s > start) wwv
      in map (group_row avg sel) (sort (remdups (map (\<lambda>s. DATE (wwv_time s)) sel))))"

text \<open>
  The request has no ORDER BY, so SQL fixes the rows of the answer and not their order:
  what the cursor yields is some arrangement of the rows above.
\<close>

definition WWV_REQUEST_answer ::
  "(sample list \<Rightarrow> real) \<Rightarrow> sample list \<Rightarrow> int \<Rightarrow> row list \<Rightarrow> bool" where
  "WWV_REQUEST_answer avg wwv start results \<longleftrightarrow>
     mset results = mset (WWV_REQUEST avg wwv start)"

text \<open>
  \<open>start_date = datetime.utcnow() - timedelta(days=days)\<close>, in unix seconds: the value
  bound to the placeholder of the request. The adapter that hands the datetime to the
  store belongs to the module \<open>adapters\<close> and is not modelled; the properties below
  hold for every value of the bound.
\<close>

definition start_date :: "int \<Rightarrow> int \<Rightarrow> int" where
  "start_date utcnow days = utcnow - days * 86400"

text \<open>
  The loop of \<open>get_wwv\<close> over the cursor (aindex.py, lines 66 to 68): each row
  \<open>res\<close> is appended as \<open>(dte, *res[:-1])\<close>, in the order the cursor yields the rows.
\<close>

definition get_wwv :: "row list \<Rightarrow> (int \<times> real \<times> real \<times> real) list" where
  "get_wwv results = map (\<lambda>(mx, av, mn, dt). (dt, mx, av, mn)) results"

subsection \<open>Double-precision averages\<close>

text \<open>
  Rounding to the nearest integer, ties to the even one.
\<close>

definition round_even :: "real \<Rightarrow> int" where
  "round_even x =
     (let n = \<lfloor>x\<rfloor>; r = x - of_int n
      in if r < 1 / 2 then n else if 1 / 2 < r then n + 1 else if even n then n else n + 1)"

text \<open>
  Rounding a real to the nearest double (IEEE 754 binary64, ties to even). Doubles are
  the multiples of \<open>2 ^ (k - 1074)\<close> with at most 53 significant bits, where \<open>k = 0\<close>
  for the subnormal range; overflow to infinity is not modelled.
\<close>

definition round_double :: "real \<Rightarrow> real" where
  "round_double x =
     (let X = \<bar>x\<bar> * 2 ^ 1074; k = nat (bitlen \<lfloor>X\<rfloor> - 53)
      in sgn x * of_int (round_even (X / 2 ^ k)) * 2 ^ k / 2 ^ 1074)"


text \<open>
  One average a store may compute: the values are added in row order, every sum rounded to
  a double, and the total is divided by the count. It stands for the parameter \<open>avg\<close>
  in the examples; on their tables a store that sums with an error compensation arrives at
  the same averages.
\<close>

definition AVG_double :: "sample list \<Rightarrow> real" where
  "AVG_double g =
     round_double (foldl (\<lambda>acc s. round_double (acc + wwv_A s)) 0 g / real (length g))"

text \<open>
  The exact mean of a list of values.
\<close>

definition mean :: "real list \<Rightarrow> real" where
  "mean vs = sum_list vs / real (length vs)"

section \<open>The proton flux chart (proton_flux.py)\<close>

text \<open>
  The exceptions that can leave the code modelled here. \<open>URLError\<close> and
  \<open>JSONDecodeError\<close> stand for a failed fetch and an undecodable body.
\<close>

datatype error =
  URLError | JSONDecodeError | TypeError | KeyError | ValueError | AttributeError
  | UnpicklingError | OSError

type_synonym datetime = int

text \<open>
  An object of the feed after the \<open>object_hook\<close> \<open>noaa_date\<close> has replaced its
  \<open>time_tag\<close> by a datetime (here: unix seconds). The flux is a number.
\<close>

record elem =
  elem_time_tag :: datetime
  elem_energy :: string
  elem_flux :: real

text \<open>
  Python dictionaries keep insertion order, and \<open>graph\<close> reads \<open>keys()\<close> and
  \<open>values()\<close> in that order, so a dictionary is an association list with distinct keys:
  \<open>map_of\<close> looks a key up, \<open>AList.update\<close> assigns (in place for a key already
  there, at the end for a new one).
\<close>

type_synonym fluxes = "(int \<times> real) list"

type_synonym payload = "(datetime \<times> fluxes) list"

text \<open>
  What \<open>pickle.load\<close> finds in the cache file: a pickled payload; no input where an
  opcode should start, as in an empty file (\<open>EOFError\<close>); or bytes that are no pickle
  (\<open>UnpicklingError\<close>).
\<close>

datatype blob = Pickled payload | Empty | Malformed

text \<open>
  The cache file as \<open>os.stat\<close> and \<open>open\<close> see it, and the world of one run: the
  cache file if it exists, the clock (\<open>time.time()\<close>), what the NOAA endpoint answers
  (an exception of \<open>urlopen\<close> or of \<open>json.loads\<close>, or the decoded list), and the
  number of fetches made so far.
\<close>

record snapshot =
  st_mtime :: real
  content :: blob

record world =
  cachefile :: "snapshot option"
  now :: real
  noaa :: "error + elem list"
  fetched :: nat

text \<open>
  The object: its attribute \<open>data\<close>, \<open>None\<close> or a payload.
\<close>

record ProtonFlux =
  self_data :: "payload option"

text \<open>
  The character classes \<open>\d\<close> and \<open>\s\<close> of the pattern, on ASCII text.
\<close>

definition isdigit :: "char \<Rightarrow> bool" where
  "isdigit c \<longleftrightarrow> c \<in> set ''0123456789''"

definition isspace :: "char \<Rightarrow> bool" where
  "isspace c \<longleftrightarrow>
     c \<in> set [CHR '' '', CHR 0x09, CHR 0x0A, CHR 0x0B, CHR 0x0C, CHR 0x0D,
              CHR 0x1C, CHR 0x1D, CHR 0x1E, CHR 0x1F]"

text \<open>
  \<^verbatim>\<open>
  _re = re.compile(r'>=(\d+)\sMeV')
  def get_e(field):
    if match := _re.match(field):
      return match.group(1)
    return None
  \<close>
  \<open>match\<close> anchors at the start of the field. The digits are matched greedily and the
  next character must be white space, which is no digit, so group 1 is the longest run of
  digits after \<open>>=\<close>.
\<close>

definition get_e :: "string \<Rightarrow> string option" where
  "get_e field =
     (case field of
        g # e # rest \<Rightarrow>
          (let digits = takeWhile isdigit rest; after = dropWhile isdigit rest
           in if g = CHR ''>'' \<and> e = CHR ''='' \<and> digits \<noteq> [] \<and> after \<noteq> [] \<and>
                 isspace (hd after) \<and> take 3 (tl after) = ''MeV''
              then Some digits else None)
      | _ \<Rightarrow> None)"

text \<open>
  \<open>int(...)\<close> of a string of decimal digits.
\<close>

definition py_int :: "string \<Rightarrow> int" where
  "py_int digits = foldl (\<lambda>n c. 10 * n + (of_char c - 48)) 0 digits"

text \<open>
  The keys of the dictionary comprehension of \<open>download\<close>, in its order, and the
  dictionary it builds for every time tag.
\<close>

definition bands :: "int list" where
  "bands = [1, 10, 100, 30, 5, 50, 500, 60]"

definition zero_fluxes :: fluxes where
  "zero_fluxes = map (\<lambda>k. (k, 0)) bands"

text \<open>
  The second loop of \<open>download\<close> (proton_flux.py, lines 88 to 91): for each element,
  \<open>energy = int(get_e(elem['energy']))\<close>, a \<open>TypeError\<close> when the field does not match,
  then the flux is stored under that energy in the dictionary of the element's time tag.
\<close>

primrec fill_loop :: "elem list \<Rightarrow> payload \<Rightarrow> error + payload" where
  "fill_loop [] data = Inr data"
| "fill_loop (elem # rest) data =
     (case get_e (elem_energy elem) of
        None \<Rightarrow> Inl TypeError
      | Some digits \<Rightarrow>
          (case map_of data (elem_time_tag elem) of
             None \<Rightarrow> Inl KeyError
           | Some fl \<Rightarrow>
               fill_loop rest
                 (AList.update (elem_time_tag elem)
                    (AList.update (py_int digits) (elem_flux elem) fl) data)))"

text \<open>
  Both loops: the first (lines 85 and 86) gives every time tag a fresh dictionary with 0.0
  for each band, the second fills in the fluxes.
\<close>

definition parse_data :: "elem list \<Rightarrow> error + payload" where
  "parse_data jdata =
     fill_loop jdata (fold (\<lambda>elem data. AList.update (elem_time_tag elem) zero_fluxes data) jdata [])"

text \<open>
  \<open>download\<close>: one fetch, counted whether or not it succeeds, then the two loops. Its
  result is the new value of \<open>self.data\<close>, or the exception that leaves it.
\<close>

definition download :: "world \<Rightarrow> (error + payload) \<times> world" where
  "download w =
     (case noaa w of
        Inl e \<Rightarrow> (Inl e, w\<lparr>fetched := fetched w + 1\<rparr>)
      | Inr jdata \<Rightarrow> (parse_data jdata, w\<lparr>fetched := fetched w + 1\<rparr>))"

text \<open>
  \<^verbatim>\<open>
  try:
    with open(self.cachefile, 'rb') as fd_cache:
      data = pickle.load(fd_cache)
  except (FileNotFoundError, EOFError):
    data = None
  self.data = data
  \<close>
\<close>

definition readcache :: "world \<Rightarrow> (error + ProtonFlux) \<times> world" where
  "readcache w =
     (case cachefile w of
        None \<Rightarrow> (Inr \<lparr>self_data = None\<rparr>, w)
      | Some f \<Rightarrow>
          (case content f of
             Pickled d \<Rightarrow> (Inr \<lparr>self_data = Some d\<rparr>, w)
           | Empty \<Rightarrow> (Inr \<lparr>self_data = None\<rparr>, w)
           | Malformed \<Rightarrow> (Inl UnpicklingError, w)))"

text \<open>
  \<^verbatim>\<open>
  with open(self.cachefile, 'wb') as fd_cache:
    pickle.dump(self.data, fd_cache)
  \<close>
  Opening with mode \<open>'wb'\<close> truncates the file at the cache path, and the dump writes
  into that same file. \<open>writecache\<close> is the world once the file is closed.
\<close>

definition writecache :: "payload \<Rightarrow> world \<Rightarrow> world" where
  "writecache d w = w\<lparr>cachefile := Some \<lparr>st_mtime = now w, content = Pickled d\<rparr>\<rparr>"

text \<open>
  The bytes of the dump reach the file in one or several writes, as many as the buffering
  of the file object makes of them. Between two writes the file holds a proper prefix of
  the pickle. Loading a proper prefix never succeeds, since the pickle ends with its only
  \<open>STOP\<close> opcode: the load runs out of input where the next opcode should start
  (\<open>EOFError\<close>, as for the empty file) or in the middle of an opcode's argument
  (\<open>UnpicklingError\<close>, "pickle data was truncated").
\<close>

datatype prefix = Cut_between_opcodes | Cut_inside_opcode

primrec prefix_blob :: "prefix \<Rightarrow> blob" where
  "prefix_blob Cut_between_opcodes = Empty"
| "prefix_blob Cut_inside_opcode = Malformed"

text \<open>
  The states of the world \<open>writecache\<close> goes through, as another process would find
  them: the truncated file left by \<open>open\<close>, the prefixes left by the writes before
  the last (\<open>partial\<close>, which depends on the size of the payload and on the buffering),
  and the complete file.
\<close>

definition writecache_steps :: "prefix list \<Rightarrow> payload \<Rightarrow> world \<Rightarrow> world list" where
  "writecache_steps partial d w =
     w\<lparr>cachefile := Some \<lparr>st_mtime = now w, content = Empty\<rparr>\<rparr> #
     map (\<lambda>p. w\<lparr>cachefile := Some \<lparr>st_mtime = now w, content = prefix_blob p\<rparr>\<rparr>) partial @
     [writecache d w]"

text \<open>
  The handler of \<open>FileNotFoundError\<close> in the constructor: \<open>self.download()\<close>, then
  \<open>self.writecache()\<close>. Nothing catches an exception of \<open>download\<close>.
\<close>

definition refresh :: "world \<Rightarrow> (error + ProtonFlux) \<times> world" where
  "refresh w =
     (case download w of
        (Inl e, w') \<Rightarrow> (Inl e, w')
      | (Inr d, w') \<Rightarrow> (Inr \<lparr>self_data = Some d\<rparr>, writecache d w'))"

text \<open>
  The constructor (proton_flux.py, lines 54 to 68):
  \<^verbatim>\<open>
  now = time.time()
  try:
    filest = os.stat(self.cachefile)
    if now - filest.st_mtime > cache_time:
      raise FileNotFoundError
  except FileNotFoundError:
    self.download()
    self.writecache()
  else:
    self.readcache()
  \<close>
  It returns the object, or the exception that leaves it, and the world afterwards.
\<close>

definition ProtonFlux_init :: "real \<Rightarrow> world \<Rightarrow> (error + ProtonFlux) \<times> world" where
  "ProtonFlux_init cache_time w =
     (case cachefile w of
        None \<Rightarrow> refresh w
      | Some filest \<Rightarrow>
          if now w - st_mtime filest > cache_time then refresh w else readcache w)"

text \<open>
  The values a Python function may hand to \<open>if not ...\<close>, and their truth value.
\<close>

datatype pyvalue = PyNone | PyBool bool | PyStr string

primrec truthy :: "pyvalue \<Rightarrow> bool" where
  "truthy PyNone = False"
| "truthy (PyBool b) = b"
| "truthy (PyStr s) = (s \<noteq> [])"

text \<open>
  \<open>[flux[energy[i]] for flux in self.data.values()]\<close>: the series of one band, a
  \<open>KeyError\<close> when a time tag lacks the band.
\<close>

primrec column :: "int \<Rightarrow> payload \<Rightarrow> error + real list" where
  "column e [] = Inr []"
| "column e (p # ps) =
     (case map_of (snd p) e of
        None \<Rightarrow> Inl KeyError
      | Some v \<Rightarrow> (case column e ps of Inl x \<Rightarrow> Inl x | Inr vs \<Rightarrow> Inr (v # vs)))"

text \<open>
  The loop of \<open>graph\<close> over \<open>energy = (10, 50, 100)\<close>, as far as it decides whether
  \<open>graph\<close> completes: \<open>data.max()\<close> raises \<open>ValueError\<close> on an empty series, and
  \<open>_max = max(data.max(), _max)\<close> is carried along.
\<close>

primrec energy_loop :: "int list \<Rightarrow> payload \<Rightarrow> real \<Rightarrow> error + real" where
  "energy_loop [] d mx = Inr mx"
| "energy_loop (e # es) d mx =
     (case column e d of
        Inl x \<Rightarrow> Inl x
      | Inr vs \<Rightarrow> if vs = [] then Inl ValueError else energy_loop es d (max (Max (set vs)) mx))"

text \<open>
  \<open>graph\<close> (proton_flux.py, lines 115 to 155). \<open>self.data.keys()\<close> raises
  \<open>AttributeError\<close> when the data is \<open>None\<close>; \<open>math.log(_max, 10)\<close> raises
  \<open>ValueError\<close> when \<open>_max\<close> is not positive; the drawing itself is the plotting
  library's business and is represented by the outcome of \<open>savefig\<close>. The function body
  has no \<open>return\<close> statement: when it reaches its end it returns \<open>None\<close>.
\<close>

definition graph :: "ProtonFlux \<Rightarrow> error option \<Rightarrow> error + pyvalue" where
  "graph self savefig =
     (case self_data self of
        None \<Rightarrow> Inl AttributeError
      | Some d \<Rightarrow>
          (case energy_loop [10, 50, 100] d 0 of
             Inl x \<Rightarrow> Inl x
           | Inr mx \<Rightarrow>
               if mx \<le> 0 then Inl ValueError
               else (case savefig of Some x \<Rightarrow> Inl x | None \<Rightarrow> Inr PyNone)))"

text \<open>
  The exit codes \<open>os.EX_OK\<close> and \<open>os.EX_DATAERR\<close>.
\<close>

definition EX_OK :: int where
  "EX_OK = 0"

definition EX_DATAERR :: int where
  "EX_DATAERR = 65"

text \<open>
  \<open>config.get(key, default)\<close>, given the entry of the configuration if there is one.
\<close>

definition config_get :: "'a option \<Rightarrow> 'a \<Rightarrow> 'a" where
  "config_get entry dflt = (case entry of None \<Rightarrow> dflt | Some v \<Rightarrow> v)"

text \<open>
  \<^verbatim>\<open>
  cache_time = config.get('protonflux.cache_time', 3600)
  p_f = ProtonFlux(cache_file, cache_time)
  if not p_f.graph(name):
    return os.EX_DATAERR
  return os.EX_OK
  \<close>
\<close>

definition main :: "real option \<Rightarrow> error option \<Rightarrow> world \<Rightarrow> (error + int) \<times> world" where
  "main cfg_cache_time savefig w =
     (case ProtonFlux_init (config_get cfg_cache_time 3600) w of
        (Inl e, w') \<Rightarrow> (Inl e, w')
      | (Inr p_f, w') \<Rightarrow>
          (case graph p_f savefig of
             Inl e \<Rightarrow> (Inl e, w')
           | Inr r \<Rightarrow> (if \<not> truthy r then Inr EX_DATAERR else Inr EX_OK, w')))"

section \<open>Sample inputs\<close>

text \<open>
  Three samples: 2024-01-01 03:00 with A = 15, 2024-01-01 20:00 with A = 45 and
  2024-01-02 10:00 with A = 5 (UTC). 2024-01-01 is day 19723, and begins at unix time
  1704067200.
\<close>

definition wwv_scenario :: "sample list" where
  "wwv_scenario =
     [\<lparr>wwv_time = 1704078000, wwv_A = 15\<rparr>,
      \<lparr>wwv_time = 1704139200, wwv_A = 45\<rparr>,
      \<lparr>wwv_time = 1704189600, wwv_A = 5\<rparr>]"



text \<open>
  A feed of three elements on two time tags, and the payload \<open>download\<close> makes of it.
\<close>

definition feed :: "elem list" where
  "feed =
     [\<lparr>elem_time_tag = 1704067200, elem_energy = ''>=10 MeV'', elem_flux = 3\<rparr>,
      \<lparr>elem_time_tag = 1704067200, elem_energy = ''>=50 MeV'', elem_flux = 2\<rparr>,
      \<lparr>elem_time_tag = 1704067500, elem_energy = ''>=10 MeV'', elem_flux = 4\<rparr>]"

definition feed_data :: payload where
  "feed_data =
     [(1704067200, [(1, 0), (10, 3), (100, 0), (30, 0), (5, 0), (50, 2), (500, 0), (60, 0)]),
      (1704067500, [(1, 0), (10, 4), (100, 0), (30, 0), (5, 0), (50, 0), (500, 0), (60, 0)])]"

text \<open>
  A world at time 1000 in which nothing has been fetched yet.
\<close>

definition world0 :: "snapshot option \<Rightarrow> (error + elem list) \<Rightarrow> world" where
  "world0 c n = \<lparr>cachefile = c, now = 1000, noaa = n, fetched = 0\<rparr>"

section \<open>Properties of the A-Index chart\<close>

lemma colour_step_length [simp]: "length (colour_step pos val colors) = length colors"
  by (simp add: colour_step_def)

lemma colour_loop_length [simp]: "length (colour_loop pvs colors) = length colors"
  by (induction pvs arbitrary: colors) simp_all

lemma colour_step_nth:
  "i < length colors \<Longrightarrow>
   colour_step pos val colors ! i =
     (if i = pos \<and> colour_of val \<noteq> ''lightgreen'' then colour_of val else colors ! i)"
  by (simp add: colour_step_def colour_of_def nth_list_update)

lemma colour_loop_enumerate_nth:
  "i < length colors \<Longrightarrow>
   colour_loop (enumerate n vals) colors ! i =
     (if n \<le> i \<and> i < n + length vals \<and> colour_of (vals ! (i - n)) \<noteq> ''lightgreen''
      then colour_of (vals ! (i - n)) else colors ! i)"
proof (induction vals arbitrary: n colors)
  case Nil
  then show ?case by auto
next
  case (Cons v vals)
  have len: "i < length (colour_step n v colors)"
    using Cons.prems by simp
  have rest: "colour_loop (enumerate (Suc n) vals) (colour_step n v colors) ! i =
     (if Suc n \<le> i \<and> i < Suc n + length vals \<and> colour_of (vals ! (i - Suc n)) \<noteq> ''lightgreen''
      then colour_of (vals ! (i - Suc n)) else colour_step n v colors ! i)"
    by (rule Cons.IH [OF len])
  have here: "colour_step n v colors ! i =
     (if i = n \<and> colour_of v \<noteq> ''lightgreen'' then colour_of v else colors ! i)"
    by (rule colour_step_nth [OF Cons.prems])
  show ?case
  proof (cases "i \<le> n")
    case True
    then show ?thesis
      by (simp add: rest here)
  next
    case False
    then have "(v # vals) ! (i - n) = vals ! (i - Suc n)"
      by (simp add: nth_Cons')
    with False show ?thesis
      by (simp add: rest here)
  qed
qed

lemma graph_colors_map: "graph_colors aavg = map colour_of aavg"
proof (rule nth_equalityI)
  show "length (graph_colors aavg) = length (map colour_of aavg)"
    by (simp add: graph_colors_def)
next
  fix i assume "i < length (graph_colors aavg)"
  then have i: "i < length aavg" by (simp add: graph_colors_def)
  then show "graph_colors aavg ! i = map colour_of aavg ! i"
    by (simp add: graph_colors_def colour_loop_enumerate_nth)
qed

text \<open>
  Claim C1. The bands are said to be half-open with each boundary in the upper band:
  an average of exactly 20 is Elevated (darkorange), 30 is High (red), 50 is Severe
  (darkred) and 100 is Extreme (darkmagenta). The loop compares strictly on both sides of
  every band but the last, so the averages 20, 30 and 50 fire no branch and keep the
  initial lightgreen, the colour of the lowest band; only 100 goes to its upper band.
\<close>

theorem graph_colors_at_boundaries:
  "graph_colors [20, 30, 50, 100] =
     [''lightgreen'', ''lightgreen'', ''lightgreen'', ''darkmagenta'']"
  by (simp add: graph_colors_def colour_step_def)

subsection \<open>Rounding to doubles\<close>

lemma round_even_of_int [simp]: "round_even (of_int n) = n"
  by (simp add: round_even_def)





lemma bitlen_floor_scaled:
  assumes "2 ^ 52 \<le> (y::real)" and "y < 2 ^ 53"
  shows "bitlen \<lfloor>y * 2 ^ n\<rfloor> = 53 + int n"
proof -
  have lo: "(2::int) ^ (52 + n) \<le> \<lfloor>y * 2 ^ n\<rfloor>"
  proof -
    have "(2::real) ^ (52 + n) \<le> y * 2 ^ n"
      using assms(1) by (simp add: power_add)
    then show ?thesis
      by (simp add: le_floor_iff)
  qed
  have hi: "\<lfloor>y * 2 ^ n\<rfloor> < (2::int) ^ (53 + n)"
  proof -
    have "y * 2 ^ n < (2::real) ^ (53 + n)"
      using assms(2) by (simp add: power_add)
    then show ?thesis
      by (simp add: floor_less_iff)
  qed
  have "bitlen \<lfloor>y * 2 ^ n\<rfloor> \<le> 53 + int n"
    using hi by (simp add: bitlen_le_iff_power nat_add_distrib)
  moreover have "53 + int n \<le> bitlen \<lfloor>y * 2 ^ n\<rfloor>"
    using lo by (simp add: bitlen_ge_iff_power nat_add_distrib)
  ultimately show ?thesis by simp
qed

text \<open>
  The working rule for evaluating \<open>round_double\<close>: scale the argument to a significand
  between \<open>2 ^ 52\<close> and \<open>2 ^ 53\<close> and round that.
\<close>

lemma round_double_scaled:
  assumes "2 ^ 52 \<le> (y::real)" and "y < 2 ^ 53" and "j \<le> 1074"
  shows "round_double (y / 2 ^ j) = of_int (round_even y) / 2 ^ j"
proof -
  have pos: "0 < y" using assms(1) by (smt (verit) zero_less_power)
  obtain n where n: "1074 = j + n"
    using assms(3) by (metis le_iff_add)
  have X: "\<bar>y / 2 ^ j\<bar> * 2 ^ 1074 = y * 2 ^ n"
    using pos by (simp add: n power_add)
  have k: "nat (bitlen \<lfloor>y * 2 ^ n\<rfloor> - 53) = n"
    by (simp add: bitlen_floor_scaled [OF assms(1,2)])
  have "round_double (y / 2 ^ j) = of_int (round_even y) * 2 ^ n / 2 ^ 1074"
    using pos unfolding round_double_def Let_def X k by simp
  also have "\<dots> = of_int (round_even y) / 2 ^ j"
    by (simp add: n power_add)
  finally show ?thesis .
qed

lemma round_double_of_int:
  assumes "0 < n" and "n < 2 ^ 53"
  shows "round_double (of_int n) = of_int n"
proof -
  have b1: "1 \<le> bitlen n"
    using assms(1) bitlen_eq_zero_iff [of n] bitlen_nonneg [of n] by linarith
  have b53: "bitlen n \<le> 53"
    using assms(2) by (simp add: bitlen_le_iff_power)
  define j where "j = nat (53 - bitlen n)"
  have lo: "2 ^ nat (bitlen n - 1) \<le> n" and hi: "n < 2 ^ nat (bitlen n)"
    using bitlen_bounds [OF assms(1)] by simp_all
  have e1: "nat (bitlen n - 1) + j = 52"
    using b1 b53 by (simp add: j_def)
  have e2: "nat (bitlen n) + j = 53"
    using b1 b53 by (simp add: j_def)
  have "(2::int) ^ 52 = 2 ^ nat (bitlen n - 1) * 2 ^ j"
    by (simp add: power_add [symmetric] e1)
  also have "\<dots> \<le> n * 2 ^ j"
    using lo by simp
  finally have l: "(2::real) ^ 52 \<le> of_int (n * 2 ^ j)"
    by (metis of_int_le_iff of_int_numeral of_int_power)
  have "n * 2 ^ j < 2 ^ nat (bitlen n) * 2 ^ j"
    using hi by simp
  also have "\<dots> = (2::int) ^ 53"
    by (simp add: power_add [symmetric] e2)
  finally have h: "of_int (n * 2 ^ j) < (2::real) ^ 53"
    by (metis of_int_less_iff of_int_numeral of_int_power)
  have "j \<le> 1074"
    using b1 by (simp add: j_def)
  from round_double_scaled [OF l h this]
  have "round_double (of_int (n * 2 ^ j) / 2 ^ j) = of_int (n * 2 ^ j) / 2 ^ j"
    by (simp only: round_even_of_int)
  then show ?thesis
    by simp
qed

lemma round_double_numeral:
  "numeral w < (2::int) ^ 53 \<Longrightarrow> round_double (numeral w) = numeral w"
  using round_double_of_int [of "numeral w"] by simp









text \<open>
  When every partial sum of a group is a double, nothing is lost in adding and
  \<open>AVG_double\<close> is the rounded mean; so it is for whole-number samples of ordinary
  size, and for a single sample that is a double.
\<close>

lemma foldl_round_double_exact:
  assumes "\<forall>n \<le> length g. n \<noteq> 0 \<longrightarrow>
     round_double (sum_list (map wwv_A (take n g))) = sum_list (map wwv_A (take n g))"
  shows "foldl (\<lambda>acc s. round_double (acc + wwv_A s)) 0 g = sum_list (map wwv_A g)"
  using assms
proof (induction g rule: rev_induct)
  case Nil
  then show ?case by simp
next
  case (snoc x xs)
  have "\<forall>n \<le> length xs. n \<noteq> 0 \<longrightarrow>
     round_double (sum_list (map wwv_A (take n xs))) = sum_list (map wwv_A (take n xs))"
  proof (intro allI impI)
    fix n assume n: "n \<le> length xs" "n \<noteq> 0"
    then have "take n (xs @ [x]) = take n xs" by simp
    with snoc.prems n show
      "round_double (sum_list (map wwv_A (take n xs))) = sum_list (map wwv_A (take n xs))"
      by (metis le_SucI length_append_singleton)
  qed
  then have ih: "foldl (\<lambda>acc s. round_double (acc + wwv_A s)) 0 xs = sum_list (map wwv_A xs)"
    by (rule snoc.IH)
  have "round_double (sum_list (map wwv_A (take (length (xs @ [x])) (xs @ [x])))) =
        sum_list (map wwv_A (take (length (xs @ [x])) (xs @ [x])))"
    using snoc.prems by (metis Zero_not_Suc le_refl length_append_singleton)
  then have "round_double (sum_list (map wwv_A xs) + wwv_A x) = sum_list (map wwv_A xs) + wwv_A x"
    by simp
  then show ?case
    by (simp add: ih)
qed

lemma AVG_double_exact_sums:
  assumes "\<forall>n \<le> length g. n \<noteq> 0 \<longrightarrow>
     round_double (sum_list (map wwv_A (take n g))) = sum_list (map wwv_A (take n g))"
  shows "AVG_double g = round_double (mean (map wwv_A g))"
  by (simp add: AVG_double_def mean_def foldl_round_double_exact [OF assms])

lemma AVG_double_single:
  "round_double (wwv_A s) = wwv_A s \<Longrightarrow> AVG_double [s] = wwv_A s"
  by (simp add: AVG_double_def)

subsection \<open>The rows of the request\<close>




lemma mean_single: "mean [v] = v"
  by (simp add: mean_def)

lemma date_group_filter:
  "date_group (filter (\<lambda>s. wwv_time s > start) wwv) dt =
   filter (\<lambda>s. start < wwv_time s \<and> DATE (wwv_time s) = dt) wwv"
  by (simp add: date_group_def conj_commute)



lemma group_row_date: "(mx, av, mn, dt) = group_row avg sel d \<Longrightarrow> dt = d"
  by (simp add: group_row_def Let_def)

lemma WWV_REQUEST_row_iff:
  "(mx, av, mn, dt) \<in> set (WWV_REQUEST avg wwv start) \<longleftrightarrow>
     (let g = filter (\<lambda>s. start < wwv_time s \<and> DATE (wwv_time s) = dt) wwv; vs = map wwv_A g
      in vs \<noteq> [] \<and> mx = Max (set vs) \<and> av = avg g \<and> mn = Min (set vs))"
proof -
  let ?sel = "filter (\<lambda>s. wwv_time s > start) wwv"
  let ?g = "filter (\<lambda>s. start < wwv_time s \<and> DATE (wwv_time s) = dt) wwv"
  let ?vs = "map wwv_A ?g"
  have ne: "?vs \<noteq> [] \<longleftrightarrow> dt \<in> (\<lambda>s. DATE (wwv_time s)) ` set ?sel"
    by (auto simp: filter_empty_conv)
  have row: "group_row avg ?sel dt = (Max (set ?vs), avg ?g, Min (set ?vs), dt)"
    by (simp only: group_row_def Let_def date_group_filter)
  have "(mx, av, mn, dt) \<in> set (WWV_REQUEST avg wwv start) \<longleftrightarrow>
        (mx, av, mn, dt) \<in> group_row avg ?sel ` ((\<lambda>s. DATE (wwv_time s)) ` set ?sel)"
    unfolding WWV_REQUEST_def Let_def by simp
  also have "\<dots> \<longleftrightarrow>
      dt \<in> (\<lambda>s. DATE (wwv_time s)) ` set ?sel \<and> (mx, av, mn, dt) = group_row avg ?sel dt"
    using group_row_date by blast
  also have "\<dots> \<longleftrightarrow> ?vs \<noteq> [] \<and> mx = Max (set ?vs) \<and> av = avg ?g \<and> mn = Min (set ?vs)"
    unfolding ne [symmetric] row by simp
  finally show ?thesis by (simp only: Let_def)
qed









lemma WWV_REQUEST_drop_boundary:
  "WWV_REQUEST avg (filter (\<lambda>s. wwv_time s \<noteq> start) wwv) start = WWV_REQUEST avg wwv start"
proof -
  have "filter (\<lambda>s. wwv_time s > start) (filter (\<lambda>s. wwv_time s \<noteq> start) wwv)
      = filter (\<lambda>s. wwv_time s > start) wwv"
    by (induction wwv) auto
  then show ?thesis
    unfolding WWV_REQUEST_def Let_def by (simp only:)
qed

lemma get_wwv_mem:
  "(dte, amax, aavg, amin) \<in> set (get_wwv results) \<longleftrightarrow> (amax, aavg, amin, dte) \<in> set results"
  by (force simp: get_wwv_def)

lemma answer_set:
  "WWV_REQUEST_answer avg wwv start results \<Longrightarrow> set results = set (WWV_REQUEST avg wwv start)"
  unfolding WWV_REQUEST_answer_def by (rule mset_eq_setD)

subsection \<open>The sample tables\<close>



lemma wwv_scenario_rows_boundary:
  "WWV_REQUEST AVG_double wwv_scenario (start_date 1707015600 34) =
     [(45, 45, 45, 19723), (5, 5, 5, 19724)]"
  by (simp add: wwv_scenario_def WWV_REQUEST_def group_row_def date_group_def AVG_double_def
      DATE_def start_date_def round_double_numeral)







subsection \<open>The claims on get_wwv\<close>




text \<open>
  Claim C6, as the code has it. The lower bound is exclusive: a bucket of date \<open>dte\<close>
  is emitted exactly when some sample of that date has a time strictly after the bound, and
  its maximum, average and minimum are taken over exactly those samples. Samples whose time
  equals the bound can be removed from the table without changing the answer.
\<close>

theorem get_wwv_strict_lower_bound:
  assumes "WWV_REQUEST_answer avg wwv start results"
  shows "((dte, amax, aavg, amin) \<in> set (get_wwv results) \<longleftrightarrow>
           (let g = filter (\<lambda>s. start < wwv_time s \<and> DATE (wwv_time s) = dte) wwv;
                vs = map wwv_A g
            in vs \<noteq> [] \<and> amax = Max (set vs) \<and> aavg = avg g \<and> amin = Min (set vs))) \<and>
         WWV_REQUEST_answer avg (filter (\<lambda>s. wwv_time s \<noteq> start) wwv) start results"
proof -
  have "(dte, amax, aavg, amin) \<in> set (get_wwv results) \<longleftrightarrow>
        (amax, aavg, amin, dte) \<in> set (WWV_REQUEST avg wwv start)"
    by (simp only: get_wwv_mem answer_set [OF assms])
  moreover have "WWV_REQUEST_answer avg (filter (\<lambda>s. wwv_time s \<noteq> start) wwv) start results"
    using assms by (simp only: WWV_REQUEST_answer_def WWV_REQUEST_drop_boundary)
  ultimately show ?thesis
    by (simp only: WWV_REQUEST_row_iff simp_thms)
qed

theorem get_wwv_strict_lower_bound_witness:
  "WWV_REQUEST_answer AVG_double wwv_scenario (start_date 1707015600 34)
     [(45, 45, 45, 19723), (5, 5, 5, 19724)] \<and>
   (19723, 45, 45, 45) \<in> set (get_wwv [(45, 45, 45, 19723), (5, 5, 5, 19724)]) \<and>
   map wwv_A (filter (\<lambda>s. start_date 1707015600 34 < wwv_time s \<and> DATE (wwv_time s) = 19723)
     wwv_scenario) = [45] \<and>
   WWV_REQUEST_answer AVG_double
     (filter (\<lambda>s. wwv_time s \<noteq> start_date 1707015600 34) wwv_scenario)
     (start_date 1707015600 34)
     [(45, 45, 45, 19723), (5, 5, 5, 19724)]"
proof -
  have a: "WWV_REQUEST_answer AVG_double wwv_scenario (start_date 1707015600 34)
     [(45, 45, 45, 19723), (5, 5, 5, 19724)]"
    by (simp add: WWV_REQUEST_answer_def wwv_scenario_rows_boundary)
  have v: "map wwv_A (filter (\<lambda>s. start_date 1707015600 34 < wwv_time s \<and> DATE (wwv_time s) = 19723)
     wwv_scenario) = [45]"
    by (simp add: wwv_scenario_def DATE_def start_date_def)
  have m: "(19723, 45, 45, 45) \<in> set (get_wwv [(45, 45, 45, 19723), (5, 5, 5, 19724)])"
    by (simp add: get_wwv_def)
  from get_wwv_strict_lower_bound [OF a, of 19723 45 45 45] a v m show ?thesis
    by (simp only: simp_thms)
qed

text \<open>
  With the clock at 2024-02-04 03:00 and 34 days, the bound is the time of the first
  sample of the scenario (A = 15). The bucket of 2024-01-01 is made of the other sample of
  that day alone (45, 45, 45); the rows that include the first sample (45, 30, 15) are no
  answer to the request.
\<close>

theorem get_wwv_boundary_sample_counterexample:
  "wwv_time (hd wwv_scenario) = start_date 1707015600 34 \<and> wwv_A (hd wwv_scenario) = 15 \<and>
   WWV_REQUEST_answer AVG_double wwv_scenario (start_date 1707015600 34)
     [(45, 45, 45, 19723), (5, 5, 5, 19724)] \<and>
   get_wwv [(45, 45, 45, 19723), (5, 5, 5, 19724)] = [(19723, 45, 45, 45), (19724, 5, 5, 5)] \<and>
   \<not> WWV_REQUEST_answer AVG_double wwv_scenario (start_date 1707015600 34)
       [(45, 30, 15, 19723), (5, 5, 5, 19724)]"
  by (simp add: WWV_REQUEST_answer_def wwv_scenario_rows_boundary get_wwv_def)
     (simp add: wwv_scenario_def start_date_def)




section \<open>Properties of the proton flux chart\<close>

lemma parse_data_feed: "parse_data feed = Inr feed_data"
  by (simp add: parse_data_def feed_def feed_data_def get_e_def py_int_def isdigit_def
      isspace_def zero_fluxes_def bands_def)

lemma graph_feed: "graph \<lparr>self_data = Some feed_data\<rparr> None = Inr PyNone"
  by (simp add: graph_def feed_data_def)

lemma init_loop_map_of:
  "map_of (fold (\<lambda>elem data. AList.update (elem_time_tag elem) zero_fluxes data) es d) ts =
     (if ts \<in> elem_time_tag ` set es then Some zero_fluxes else map_of d ts)"
  by (induction es arbitrary: d) (auto simp: update_conv')

lemma init_loop_keys:
  "fst ` set (fold (\<lambda>elem data. AList.update (elem_time_tag elem) zero_fluxes data) es d) =
     elem_time_tag ` set es \<union> fst ` set d"
  by (induction es arbitrary: d) (auto simp: dom_update)

lemma init_loop_distinct:
  "distinct (map fst d) \<Longrightarrow>
   distinct (map fst (fold (\<lambda>elem data. AList.update (elem_time_tag elem) zero_fluxes data) es d))"
  by (induction es arbitrary: d) (auto simp: distinct_update)

lemma fill_loop_keys:
  "fill_loop es d = Inr d' \<Longrightarrow> fst ` set d' = fst ` set d"
proof (induction es arbitrary: d)
  case Nil
  then show ?case by simp
next
  case (Cons e es)
  from Cons.prems obtain digits fl where
    g: "get_e (elem_energy e) = Some digits" and
    l: "map_of d (elem_time_tag e) = Some fl" and
    r: "fill_loop es (AList.update (elem_time_tag e) (AList.update (py_int digits) (elem_flux e) fl) d) = Inr d'"
    by (auto split: option.splits)
  have "elem_time_tag e \<in> fst ` set d"
    using l by (metis map_of_eq_None_iff option.distinct(1))
  with Cons.IH [OF r] show ?case
    by (auto simp: dom_update)
qed

lemma fill_loop_distinct:
  "fill_loop es d = Inr d' \<Longrightarrow> distinct (map fst d) \<Longrightarrow> distinct (map fst d')"
proof (induction es arbitrary: d)
  case Nil
  then show ?case by simp
next
  case (Cons e es)
  from Cons.prems(1) obtain digits fl where
    r: "fill_loop es (AList.update (elem_time_tag e) (AList.update (py_int digits) (elem_flux e) fl) d) = Inr d'"
    by (auto split: option.splits)
  show ?case
    by (rule Cons.IH [OF r]) (simp add: distinct_update Cons.prems(2))
qed

lemma fill_loop_values:
  "fill_loop es d = Inr d' \<Longrightarrow> map_of d' ts = Some fl' \<Longrightarrow>
   \<exists>fl. map_of d ts = Some fl \<and>
     (map_of fl k \<noteq> None \<longrightarrow> map_of fl' k \<noteq> None) \<and>
     ((\<forall>e digits. e \<in> set es \<and> elem_time_tag e = ts \<and> get_e (elem_energy e) = Some digits
          \<longrightarrow> py_int digits \<noteq> k) \<longrightarrow> map_of fl' k = map_of fl k)"
proof (induction es arbitrary: d)
  case Nil
  then show ?case by simp
next
  case (Cons e es)
  from Cons.prems(1) obtain digits fl0 where
    g: "get_e (elem_energy e) = Some digits" and
    l: "map_of d (elem_time_tag e) = Some fl0" and
    r: "fill_loop es (AList.update (elem_time_tag e) (AList.update (py_int digits) (elem_flux e) fl0) d) = Inr d'"
    by (auto split: option.splits)
  let ?d1 = "AList.update (elem_time_tag e) (AList.update (py_int digits) (elem_flux e) fl0) d"
  from Cons.IH [OF r Cons.prems(2)] obtain fl1 where
    m1: "map_of ?d1 ts = Some fl1" and
    p1: "map_of fl1 k \<noteq> None \<longrightarrow> map_of fl' k \<noteq> None" and
    v1: "(\<forall>e digits. e \<in> set es \<and> elem_time_tag e = ts \<and> get_e (elem_energy e) = Some digits
          \<longrightarrow> py_int digits \<noteq> k) \<longrightarrow> map_of fl' k = map_of fl1 k"
    by blast
  show ?case
  proof (cases "ts = elem_time_tag e")
    case True
    with m1 have fl1: "fl1 = AList.update (py_int digits) (elem_flux e) fl0"
      by (simp add: update_conv')
    have a: "map_of fl0 k \<noteq> None \<longrightarrow> map_of fl' k \<noteq> None"
      using p1 by (simp add: fl1 update_conv')
    have b: "map_of fl' k = map_of fl0 k"
      if h: "\<forall>e' digits. e' \<in> set (e # es) \<and> elem_time_tag e' = ts \<and> get_e (elem_energy e') = Some digits
          \<longrightarrow> py_int digits \<noteq> k"
    proof -
      from h g True have ne: "py_int digits \<noteq> k" by auto
      from h have "\<forall>e' digits. e' \<in> set es \<and> elem_time_tag e' = ts \<and> get_e (elem_energy e') = Some digits
          \<longrightarrow> py_int digits \<noteq> k" by auto
      with v1 have "map_of fl' k = map_of fl1 k" by blast
      with ne show ?thesis by (simp add: fl1 update_conv')
    qed
    from l True a b show ?thesis by blast
  next
    case False
    with m1 have m: "map_of d ts = Some fl1"
      by (simp add: update_conv')
    have b: "map_of fl' k = map_of fl1 k"
      if h: "\<forall>e' digits. e' \<in> set (e # es) \<and> elem_time_tag e' = ts \<and> get_e (elem_energy e') = Some digits
          \<longrightarrow> py_int digits \<noteq> k"
    proof -
      from h have "\<forall>e' digits. e' \<in> set es \<and> elem_time_tag e' = ts \<and> get_e (elem_energy e') = Some digits
          \<longrightarrow> py_int digits \<noteq> k" by auto
      with v1 show ?thesis by blast
    qed
    from m p1 b show ?thesis by blast
  qed
qed

lemma zero_fluxes_band: "k \<in> set bands \<Longrightarrow> map_of zero_fluxes k = Some 0"
  by (auto simp: zero_fluxes_def bands_def)

text \<open>
  Claim C8. After a successful download the time tags of the data are those of the feed,
  each once, and the dictionary of every time tag has a value for every band of the fixed
  set: 0.0 when no element of the feed carries that band at that time tag. So every band
  has a series over the same time tags.
\<close>

theorem download_all_bands_present:
  assumes "noaa w = Inr jdata" and "fst (download w) = Inr data"
    and "map_of data ts = Some fl" and "k \<in> set bands"
  shows "fst ` set data = elem_time_tag ` set jdata \<and> distinct (map fst data) \<and>
         (\<exists>v. map_of fl k = Some v \<and>
            ((\<forall>e digits. e \<in> set jdata \<and> elem_time_tag e = ts \<and>
                 get_e (elem_energy e) = Some digits \<longrightarrow> py_int digits \<noteq> k) \<longrightarrow> v = 0))"
proof -
  let ?d0 = "fold (\<lambda>elem data. AList.update (elem_time_tag elem) zero_fluxes data) jdata []"
  have run: "fill_loop jdata ?d0 = Inr data"
    using assms(1,2) by (simp add: download_def parse_data_def)
  have keys: "fst ` set data = elem_time_tag ` set jdata"
    using fill_loop_keys [OF run] by (simp add: init_loop_keys)
  have dist: "distinct (map fst data)"
    by (rule fill_loop_distinct [OF run]) (simp add: init_loop_distinct)
  from fill_loop_values [OF run assms(3), of k] obtain fl0 where
    m0: "map_of ?d0 ts = Some fl0" and
    p: "map_of fl0 k \<noteq> None \<longrightarrow> map_of fl k \<noteq> None" and
    v: "(\<forall>e digits. e \<in> set jdata \<and> elem_time_tag e = ts \<and> get_e (elem_energy e) = Some digits
          \<longrightarrow> py_int digits \<noteq> k) \<longrightarrow> map_of fl k = map_of fl0 k"
    by blast
  from m0 have "fl0 = zero_fluxes"
    by (simp add: init_loop_map_of split: if_splits)
  then have z: "map_of fl0 k = Some 0"
    using assms(4) by (simp add: zero_fluxes_band)
  with p obtain x where x: "map_of fl k = Some x" by auto
  with v z have "(\<forall>e digits. e \<in> set jdata \<and> elem_time_tag e = ts \<and> get_e (elem_energy e) = Some digits
          \<longrightarrow> py_int digits \<noteq> k) \<longrightarrow> x = 0"
    by auto
  with x keys dist show ?thesis by blast
qed

lemmas eval_defs =
  world0_def ProtonFlux_init_def refresh_def readcache_def download_def writecache_def
  writecache_steps_def parse_data_feed

theorem download_all_bands_present_witness:
  "noaa (world0 None (Inr feed)) = Inr feed \<and>
   fst (download (world0 None (Inr feed))) = Inr feed_data \<and>
   map_of feed_data 1704067500 =
     Some [(1::int, 0::real), (10, 4), (100, 0), (30, 0), (5, 0), (50, 0), (500, 0), (60, 0)] \<and>
   50 \<in> set bands \<and>
   map_of [(1::int, 0::real), (10, 4), (100, 0), (30, 0), (5, 0), (50, 0), (500, 0), (60, 0)] 50 = Some 0 \<and>
   fst ` set feed_data = elem_time_tag ` set feed"
proof -
  have a: "noaa (world0 None (Inr feed)) = Inr feed"
    by (simp add: world0_def)
  have b: "fst (download (world0 None (Inr feed))) = Inr feed_data"
    by (simp add: eval_defs)
  have c: "map_of feed_data 1704067500 =
     Some [(1::int, 0::real), (10, 4), (100, 0), (30, 0), (5, 0), (50, 0), (500, 0), (60, 0)]"
    by (simp add: feed_data_def)
  have d: "50 \<in> set bands"
    by (simp add: bands_def)
  from download_all_bands_present [OF a b c d] a b c d show ?thesis
    by simp
qed

lemma refresh_fetched: "fetched (snd (refresh w)) = fetched w + 1"
  by (simp add: refresh_def download_def writecache_def writecache_steps_def
      split: sum.splits prod.splits)

text \<open>
  Claim C2. Constructing the object makes exactly one fetch when there is no cache file
  and when the cache file is older than the time to live, \<open>now - st_mtime > cache_time\<close>.
  When its age is at most the time to live no fetch is made and nothing is written (the
  world is unchanged), and a well-formed snapshot is the data of the object.
\<close>

theorem ProtonFlux_init_refreshes:
  "(cachefile w = None \<longrightarrow> fetched (snd (ProtonFlux_init t w)) = fetched w + 1) \<and>
   (cachefile w = Some f \<and> now w - st_mtime f > t \<longrightarrow>
      fetched (snd (ProtonFlux_init t w)) = fetched w + 1) \<and>
   (cachefile w = Some f \<and> now w - st_mtime f \<le> t \<longrightarrow> snd (ProtonFlux_init t w) = w) \<and>
   (cachefile w = Some f \<and> now w - st_mtime f \<le> t \<and> content f = Pickled d \<longrightarrow>
      fst (ProtonFlux_init t w) = Inr \<lparr>self_data = Some d\<rparr>)"
proof -
  have fresh: "snd (readcache w) = w"
    by (simp add: readcache_def split: option.splits blob.splits)
  have a: "cachefile w = None \<longrightarrow> fetched (snd (ProtonFlux_init t w)) = fetched w + 1"
    by (simp add: ProtonFlux_init_def refresh_fetched)
  have b: "cachefile w = Some f \<and> now w - st_mtime f > t \<longrightarrow>
      fetched (snd (ProtonFlux_init t w)) = fetched w + 1"
    by (simp add: ProtonFlux_init_def refresh_fetched)
  have c: "cachefile w = Some f \<and> now w - st_mtime f \<le> t \<longrightarrow> snd (ProtonFlux_init t w) = w"
    by (simp add: ProtonFlux_init_def fresh)
  have d: "cachefile w = Some f \<and> now w - st_mtime f \<le> t \<and> content f = Pickled d \<longrightarrow>
      fst (ProtonFlux_init t w) = Inr \<lparr>self_data = Some d\<rparr>"
    by (simp add: ProtonFlux_init_def readcache_def)
  from a b c d show ?thesis
    by (simp only: simp_thms)
qed

theorem ProtonFlux_init_refreshes_witness:
  "fetched (snd (ProtonFlux_init 900 (world0 None (Inr feed)))) = 1 \<and>
   fetched (snd (ProtonFlux_init 900
     (world0 (Some \<lparr>st_mtime = 99, content = Pickled (tl feed_data)\<rparr>) (Inr feed)))) = 1 \<and>
   ProtonFlux_init 900 (world0 (Some \<lparr>st_mtime = 100, content = Pickled (tl feed_data)\<rparr>) (Inr feed)) =
     (Inr \<lparr>self_data = Some (tl feed_data)\<rparr>,
      world0 (Some \<lparr>st_mtime = 100, content = Pickled (tl feed_data)\<rparr>) (Inr feed))"
  using
    ProtonFlux_init_refreshes [where w = "world0 None (Inr feed)" and t = 900]
    ProtonFlux_init_refreshes [where
      w = "world0 (Some \<lparr>st_mtime = 99, content = Pickled (tl feed_data)\<rparr>) (Inr feed)"
      and f = "\<lparr>st_mtime = 99, content = Pickled (tl feed_data)\<rparr>" and t = 900]
    ProtonFlux_init_refreshes [where
      w = "world0 (Some \<lparr>st_mtime = 100, content = Pickled (tl feed_data)\<rparr>) (Inr feed)"
      and f = "\<lparr>st_mtime = 100, content = Pickled (tl feed_data)\<rparr>" and t = 900
      and d = "tl feed_data"]
  by (simp add: world0_def prod_eq_iff)

lemma refresh_failure:
  "fst (download w) = Inl e \<Longrightarrow> refresh w = (Inl e, w\<lparr>fetched := fetched w + 1\<rparr>)"
  by (auto simp: refresh_def download_def split: sum.splits)

text \<open>
  Claim C3, as the code has it. When a refresh is due (no cache file, or one older than
  the time to live) and the download fails, on the network or in parsing, the exception
  leaves the constructor and \<open>main\<close>: no payload is returned, neither the stale one nor
  an empty one, the cache file is left as it was, and \<open>graph\<close> is not called.
\<close>

theorem ProtonFlux_init_download_failure:
  assumes "fst (download w) = Inl e"
    and "cachefile w = None \<or> (\<exists>f. cachefile w = Some f \<and> now w - st_mtime f > t)"
  shows "ProtonFlux_init t w = (Inl e, w\<lparr>fetched := fetched w + 1\<rparr>) \<and>
         main (Some t) savefig w = (Inl e, w\<lparr>fetched := fetched w + 1\<rparr>)"
proof -
  have "ProtonFlux_init t w = refresh w"
    using assms(2) by (auto simp: ProtonFlux_init_def)
  then have i: "ProtonFlux_init t w = (Inl e, w\<lparr>fetched := fetched w + 1\<rparr>)"
    by (simp only: refresh_failure [OF assms(1)])
  then show ?thesis
    by (simp add: main_def config_get_def)
qed

theorem ProtonFlux_init_download_failure_witness:
  "fst (download (world0 None (Inl URLError))) = Inl URLError \<and>
   ProtonFlux_init 900 (world0 None (Inl URLError)) =
     (Inl URLError, (world0 None (Inl URLError))\<lparr>fetched := 1\<rparr>) \<and>
   fst (download (world0 (Some \<lparr>st_mtime = 99, content = Pickled feed_data\<rparr>)
     (Inr [\<lparr>elem_time_tag = 1704067200, elem_energy = ''10 MeV'', elem_flux = 3\<rparr>]))) = Inl TypeError \<and>
   main (Some 900) None (world0 (Some \<lparr>st_mtime = 99, content = Pickled feed_data\<rparr>)
     (Inr [\<lparr>elem_time_tag = 1704067200, elem_energy = ''10 MeV'', elem_flux = 3\<rparr>])) =
     (Inl TypeError, (world0 (Some \<lparr>st_mtime = 99, content = Pickled feed_data\<rparr>)
     (Inr [\<lparr>elem_time_tag = 1704067200, elem_energy = ''10 MeV'', elem_flux = 3\<rparr>]))\<lparr>fetched := 1\<rparr>)"
proof -
  let ?w1 = "world0 None (Inl URLError)"
  let ?w2 = "world0 (Some \<lparr>st_mtime = 99, content = Pickled feed_data\<rparr>)
     (Inr [\<lparr>elem_time_tag = 1704067200, elem_energy = ''10 MeV'', elem_flux = 3\<rparr>])"
  have a1: "fst (download ?w1) = Inl URLError"
    by (simp add: download_def world0_def)
  have b1: "cachefile ?w1 = None \<or> (\<exists>f. cachefile ?w1 = Some f \<and> now ?w1 - st_mtime f > 900)"
    by (simp add: world0_def)
  have a2: "fst (download ?w2) = Inl TypeError"
    by (simp add: download_def world0_def parse_data_def get_e_def)
  have b2: "cachefile ?w2 = None \<or> (\<exists>f. cachefile ?w2 = Some f \<and> now ?w2 - st_mtime f > 900)"
    by (simp add: world0_def)
  from ProtonFlux_init_download_failure [OF a1 b1, of None]
       ProtonFlux_init_download_failure [OF a2 b2, of None] a1 a2
  show ?thesis
    by (simp add: world0_def)
qed

text \<open>
  A failed fetch with no cache file, and with a stale but well-formed one: the constructor
  raises in both, and so does \<open>main\<close>.
\<close>

theorem ProtonFlux_init_raises_counterexample:
  "fst (ProtonFlux_init 900 (world0 None (Inl URLError))) = Inl URLError \<and>
   fst (ProtonFlux_init 900
     (world0 (Some \<lparr>st_mtime = 99, content = Pickled feed_data\<rparr>) (Inl URLError))) = Inl URLError \<and>
   fst (main (Some 900) None (world0 None (Inl URLError))) = Inl URLError"
  by (simp add: eval_defs main_def config_get_def)

lemma refresh_ignores_snapshot:
  "fst (refresh (w\<lparr>cachefile := None\<rparr>)) = fst (refresh w)"
  by (simp add: refresh_def download_def split: sum.splits)

text \<open>
  Claim C4, as the code has it. An unreadable snapshot leads to a refresh only when it is
  older than the time to live: then, as for an absent file, exactly one fetch is made and
  its outcome is the outcome of the constructor, the content of the file never being read.
  A snapshot within the time to live that is empty (\<open>EOFError\<close> on load) is not
  refreshed: no fetch is made, the world is unchanged and the data is \<open>None\<close>.
\<close>

theorem ProtonFlux_init_unreadable_snapshot:
  assumes "cachefile w = Some f"
  shows "(now w - st_mtime f \<le> t \<and> content f = Empty \<longrightarrow>
            ProtonFlux_init t w = (Inr \<lparr>self_data = None\<rparr>, w)) \<and>
         (now w - st_mtime f > t \<longrightarrow>
            fst (ProtonFlux_init t w) = fst (ProtonFlux_init t (w\<lparr>cachefile := None\<rparr>)) \<and>
            fetched (snd (ProtonFlux_init t w)) = fetched w + 1)"
  using assms
  by (simp add: ProtonFlux_init_def readcache_def refresh_ignores_snapshot refresh_fetched)

theorem ProtonFlux_init_unreadable_snapshot_witness:
  "cachefile (world0 (Some \<lparr>st_mtime = 100, content = Empty\<rparr>) (Inr feed)) =
     Some \<lparr>st_mtime = 100, content = Empty\<rparr> \<and>
   ProtonFlux_init 900 (world0 (Some \<lparr>st_mtime = 100, content = Empty\<rparr>) (Inr feed)) =
     (Inr \<lparr>self_data = None\<rparr>, world0 (Some \<lparr>st_mtime = 100, content = Empty\<rparr>) (Inr feed)) \<and>
   fst (ProtonFlux_init 900 (world0 (Some \<lparr>st_mtime = 99, content = Empty\<rparr>) (Inr feed))) =
     Inr \<lparr>self_data = Some feed_data\<rparr> \<and>
   fetched (snd (ProtonFlux_init 900 (world0 (Some \<lparr>st_mtime = 99, content = Empty\<rparr>) (Inr feed)))) = 1"
proof -
  have a: "cachefile (world0 (Some \<lparr>st_mtime = 100, content = Empty\<rparr>) (Inr feed)) =
     Some \<lparr>st_mtime = 100, content = Empty\<rparr>"
    by (simp add: world0_def)
  have b: "cachefile (world0 (Some \<lparr>st_mtime = 99, content = Empty\<rparr>) (Inr feed)) =
     Some \<lparr>st_mtime = 99, content = Empty\<rparr>"
    by (simp add: world0_def)
  have c: "fst (ProtonFlux_init 900 ((world0 (Some \<lparr>st_mtime = 99, content = Empty\<rparr>) (Inr feed))\<lparr>cachefile := None\<rparr>)) =
     Inr \<lparr>self_data = Some feed_data\<rparr>"
    by (simp add: eval_defs)
  from ProtonFlux_init_unreadable_snapshot [OF a, of 900]
       ProtonFlux_init_unreadable_snapshot [OF b, of 900] a c
  show ?thesis
    by (simp add: world0_def)
qed

text \<open>
  An empty cache file of age 900 with a time to live of 900: the data is \<open>None\<close> and
  nothing is fetched, where the absent file gives one fetch and the fresh payload.
\<close>

theorem ProtonFlux_init_empty_snapshot_counterexample:
  "ProtonFlux_init 900 (world0 (Some \<lparr>st_mtime = 100, content = Empty\<rparr>) (Inr feed)) =
     (Inr \<lparr>self_data = None\<rparr>, world0 (Some \<lparr>st_mtime = 100, content = Empty\<rparr>) (Inr feed)) \<and>
   fetched (world0 (Some \<lparr>st_mtime = 100, content = Empty\<rparr>) (Inr feed)) = 0 \<and>
   fst (ProtonFlux_init 900 (world0 None (Inr feed))) = Inr \<lparr>self_data = Some feed_data\<rparr> \<and>
   fetched (snd (ProtonFlux_init 900 (world0 None (Inr feed)))) = 1"
  by (simp add: eval_defs)




lemma graph_returns_None: "graph p_f savefig = Inr r \<Longrightarrow> r = PyNone"
  by (auto simp: graph_def split: option.splits sum.splits if_splits)

text \<open>
  Claim C10. Whenever the constructor returns an object and \<open>graph\<close> completes on it,
  \<open>graph\<close> has returned \<open>None\<close> and \<open>main\<close> returns \<open>os.EX_DATAERR\<close>, which is
  not \<open>os.EX_OK\<close>.
\<close>

theorem main_returns_EX_DATAERR:
  assumes "ProtonFlux_init (config_get cfg 3600) w = (Inr p_f, w')"
    and "graph p_f savefig = Inr r"
  shows "main cfg savefig w = (Inr EX_DATAERR, w') \<and> r = PyNone \<and> EX_DATAERR \<noteq> EX_OK"
proof -
  have r: "r = PyNone"
    by (rule graph_returns_None [OF assms(2)])
  with assms show ?thesis
    by (simp add: main_def EX_DATAERR_def EX_OK_def)
qed

theorem main_returns_EX_DATAERR_witness:
  "ProtonFlux_init (config_get None 3600)
     (world0 (Some \<lparr>st_mtime = 100, content = Pickled feed_data\<rparr>) (Inr feed)) =
     (Inr \<lparr>self_data = Some feed_data\<rparr>,
      world0 (Some \<lparr>st_mtime = 100, content = Pickled feed_data\<rparr>) (Inr feed)) \<and>
   graph \<lparr>self_data = Some feed_data\<rparr> None = Inr PyNone \<and>
   main None None (world0 (Some \<lparr>st_mtime = 100, content = Pickled feed_data\<rparr>) (Inr feed)) =
     (Inr 65, world0 (Some \<lparr>st_mtime = 100, content = Pickled feed_data\<rparr>) (Inr feed))"
proof -
  have a: "ProtonFlux_init (config_get None 3600)
     (world0 (Some \<lparr>st_mtime = 100, content = Pickled feed_data\<rparr>) (Inr feed)) =
     (Inr \<lparr>self_data = Some feed_data\<rparr>,
      world0 (Some \<lparr>st_mtime = 100, content = Pickled feed_data\<rparr>) (Inr feed))"
    by (simp add: config_get_def world0_def ProtonFlux_init_def readcache_def)
  from main_returns_EX_DATAERR [OF a graph_feed] a graph_feed show ?thesis
    by (simp add: EX_DATAERR_def)
qed

end
